theory Spec2Isabelle
  imports Complex_Main
begin

section \<open>Helper functions of \<open>App.js\<close>\<close>

text \<open>
  JavaScript numbers are modelled as mathematical reals: the development is about the
  geometry and the control flow of the program, not about rounding.  A \<open>THREE.Vector3\<close>
  is a triple of numbers.
\<close>

datatype Vector3 = Vector3 (vx: real) (vy: real) (vz: real)

subsection \<open>\<open>getVectorFromLatLon\<close>\<close>

definition getVectorFromLatLon :: "real \<Rightarrow> real \<Rightarrow> real \<Rightarrow> Vector3" where
  "getVectorFromLatLon lat lon radius =
     (let phi = (90 - lat) * (pi / 180);
          theta = (lon + 180) * (pi / 180);
          x = - (radius * sin phi * cos theta);
          z = radius * sin phi * sin theta;
          y = radius * cos phi
      in Vector3 x y z)"

subsection \<open>\<open>getWeatherDescription\<close>\<close>

text \<open>
  The argument is the \<open>weather_code\<close> read from the forecast: a number, or
  \<open>undefined\<close> when the field or the array element is missing.  WMO codes are integers.
\<close>

datatype js_code = Undefined | Number int

definition codes :: "(int \<times> string) list" where
  "codes =
     [(0, ''Clear sky''), (1, ''Mainly clear''), (2, ''Partly cloudy''), (3, ''Overcast''),
      (45, ''Fog''), (48, ''Rime fog''),
      (51, ''Light drizzle''), (53, ''Moderate drizzle''), (55, ''Dense drizzle''),
      (61, ''Slight rain''), (63, ''Moderate rain''), (65, ''Heavy rain''),
      (80, ''Slight rain showers''), (81, ''Moderate rain showers''),
      (82, ''Violent rain showers''),
      (95, ''Thunderstorm'')]"

text \<open>\<open>codes[code]\<close>: the property of the table, \<open>None\<close> for \<open>undefined\<close>.\<close>

definition codes_at :: "js_code \<Rightarrow> string option" where
  "codes_at code = (case code of Undefined \<Rightarrow> None | Number n \<Rightarrow> map_of codes n)"

text \<open>\<open>v || d\<close> on a string or \<open>undefined\<close>: the empty string is falsy too.\<close>

definition js_or :: "string option \<Rightarrow> string \<Rightarrow> string" where
  "js_or v d = (case v of None \<Rightarrow> d | Some s \<Rightarrow> if s = [] then d else s)"

definition getWeatherDescription :: "js_code \<Rightarrow> string" where
  "getWeatherDescription code = js_or (codes_at code) ''Unknown weather''"

subsection \<open>The click handler of the globe\<close>

text \<open>\<open>THREE.Vector3.length\<close> and \<open>Math.atan2\<close>, as their documentation defines them.\<close>

definition length3 :: "Vector3 \<Rightarrow> real" where
  "length3 p = sqrt (vx p * vx p + vy p * vy p + vz p * vz p)"

definition atan2 :: "real \<Rightarrow> real \<Rightarrow> real" where
  "atan2 b a =
     (if 0 < a then arctan (b / a)
      else if a < 0 then (if 0 \<le> b then arctan (b / a) + pi else arctan (b / a) - pi)
      else if 0 < b then pi / 2
      else if b < 0 then - (pi / 2)
      else 0)"

text \<open>
  The first half of \<open>handleClick\<close>: the latitude and longitude computed from the clicked
  point.  At the origin \<open>point.y / point.length()\<close> is \<open>0 / 0\<close>, so the latitude is NaN;
  the model returns \<open>None\<close> there.
\<close>

definition handleClick_latlon :: "Vector3 \<Rightarrow> (real \<times> real) option" where
  "handleClick_latlon point =
     (if length3 point = 0 then None
      else
        let phi = arccos (vy point / length3 point);
            theta = atan2 (vx point) (vz point);
            lat = 90 - (phi * 180) / pi;
            lon = (theta * 180) / pi
        in Some (lat, lon))"

text \<open>The whole handler: the arguments it passes to \<open>onGlobeClick\<close>.\<close>

definition handleClick :: "Vector3 \<Rightarrow> (real \<times> real \<times> Vector3) option" where
  "handleClick point =
     (case handleClick_latlon point of
        None \<Rightarrow> None
      | Some (lat, lon) \<Rightarrow> Some (lat, lon, getVectorFromLatLon lat lon 1.05))"

text \<open>\<open>Vector3.multiplyScalar\<close>: the point moved along its ray from the origin.\<close>

definition multiplyScalar :: "real \<Rightarrow> Vector3 \<Rightarrow> Vector3" where
  "multiplyScalar k p = Vector3 (k * vx p) (k * vy p) (k * vz p)"

section \<open>Asynchronous code\<close>

text \<open>
  The page runs on one thread.  An \<open>async\<close> function runs until its next \<open>await\<close>,
  and its continuation runs as a later event, when the awaited promise has settled;
  other events may run in between.  A function with awaits is therefore modelled by one
  state transformer for each stretch between two awaits.  The two awaits of each
  \<open>try\<close> block (\<open>fetch\<close>, then \<open>response.json()\<close>) are taken in one event, since the
  code changes no state between them: the outcome is the parsed body, or the error that
  sent control to the \<open>catch\<close> block.
\<close>

datatype error_kind = NetworkError | ParseError | TypeError

datatype 'a settled = Failed error_kind | Resolved 'a

text \<open>The promise that an \<open>async\<close> function returns, once the function has finished.\<close>

datatype completion = Fulfilled | Rejected error_kind

text \<open>\<open>console.error\<close> appends its message and the error to the console.\<close>

record Runtime =
  console :: "(string \<times> error_kind) list"

section \<open>\<open>SatelliteTracker\<close>\<close>

text \<open>The fields the component reads from the body; a missing field reads as \<open>undefined\<close>.\<close>

record IssData =
  latitude :: "real option"
  longitude :: "real option"

record IssPosition =
  iss_lat :: "real option"
  iss_lon :: "real option"

text \<open>
  The component's state, and what the runtime holds for it: the clock (milliseconds since
  the component was mounted), the time at which the interval registered by
  \<open>setInterval\<close> fires next (\<open>None\<close> when no interval is registered), the time of every
  call of \<open>fetch\<close> so far, and the calls that have not settled yet (as indices into
  \<open>requests\<close>).
\<close>

record SatelliteTracker = Runtime +
  issPosition :: IssPosition
  clock :: nat
  interval :: "nat option"
  requests :: "nat list"
  pending :: "nat list"

text \<open>\<open>useState({ lat: 0, lon: 0 })\<close>, and the effect: \<open>setInterval(fetchIssPosition, 2000)\<close>.\<close>

definition mount :: SatelliteTracker where
  "mount =
     \<lparr>console = [],
      issPosition = \<lparr>iss_lat = Some 0, iss_lon = Some 0\<rparr>,
      clock = 0,
      interval = Some 2000,
      requests = [],
      pending = []\<rparr>"

text \<open>The effect's cleanup: \<open>clearInterval(interval)\<close>.\<close>

definition unmount :: "SatelliteTracker \<Rightarrow> SatelliteTracker" where
  "unmount s = s\<lparr>interval := None\<rparr>"

text \<open>\<open>fetchIssPosition\<close> up to its first \<open>await\<close>: the request is sent.\<close>

definition fetchIssPosition_call :: "SatelliteTracker \<Rightarrow> SatelliteTracker" where
  "fetchIssPosition_call s =
     s\<lparr>requests := requests s @ [clock s],
       pending := pending s @ [length (requests s)]\<rparr>"

text \<open>\<open>fetchIssPosition\<close> after the awaits: the rest of the \<open>try\<close> block, or the \<open>catch\<close> block.\<close>

fun fetchIssPosition_settled ::
  "IssData settled \<Rightarrow> SatelliteTracker \<Rightarrow> SatelliteTracker \<times> completion" where
  "fetchIssPosition_settled (Resolved data) s =
     (s\<lparr>issPosition := \<lparr>iss_lat = latitude data, iss_lon = longitude data\<rparr>\<rparr>, Fulfilled)"
| "fetchIssPosition_settled (Failed error) s =
     (s\<lparr>console := console s @ [(''Failed to fetch ISS position:'', error)]\<rparr>, Fulfilled)"

text \<open>
  One millisecond passes.  When the interval is due the runtime calls
  \<open>fetchIssPosition\<close> and the interval is due again 2000 ms later.
\<close>

definition ms :: "SatelliteTracker \<Rightarrow> SatelliteTracker" where
  "ms s =
     (let s' = s\<lparr>clock := Suc (clock s)\<rparr>
      in case interval s' of
           None \<Rightarrow> s'
         | Some due \<Rightarrow>
             if due \<le> clock s'
             then fetchIssPosition_call (s'\<lparr>interval := Some (due + 2000)\<rparr>)
             else s')"

datatype poll_event = Elapse nat | Settle nat "IssData settled"

fun poll_step :: "poll_event \<Rightarrow> SatelliteTracker \<Rightarrow> SatelliteTracker" where
  "poll_step (Elapse n) s = (ms ^^ n) s"
| "poll_step (Settle i outcome) s =
     (if i \<in> set (pending s)
      then (fst (fetchIssPosition_settled outcome s))\<lparr>pending := removeAll i (pending s)\<rparr>
      else s)"

definition poll_run :: "poll_event list \<Rightarrow> SatelliteTracker \<Rightarrow> SatelliteTracker" where
  "poll_run evs s = fold poll_step evs s"

text \<open>The time that a list of events takes.\<close>

fun elapsed :: "poll_event list \<Rightarrow> nat" where
  "elapsed [] = 0"
| "elapsed (Elapse n # evs) = n + elapsed evs"
| "elapsed (Settle i outcome # evs) = elapsed evs"

text \<open>
  What holds of the timer at every moment after \<open>mount\<close>: the interval is due at the next
  multiple of 2000 ms, and one request was sent at each multiple reached so far.
\<close>

definition timer_inv :: "SatelliteTracker \<Rightarrow> bool" where
  "timer_inv s \<longleftrightarrow>
     interval s = Some (2000 * (clock s div 2000 + 1)) \<and>
     requests s = map (\<lambda>k. 2000 * k) [1..<Suc (clock s div 2000)]"

section \<open>\<open>App\<close>: the selection made by a click on the globe\<close>

record ClickedInfo =
  position :: "Vector3 option"
  countryName :: "string option"

text \<open>The fields of the reverse-geocoding body that the handler reads.\<close>

record Address =
  country :: "string option"

record GeoData =
  address :: "Address option"

text \<open>
  Where a call of \<open>handleGlobeClick\<close> stands: waiting for the forecast, waiting for the
  country, or finished.  The coordinates are those of the request.
\<close>

datatype phase = AwaitWeather real real | AwaitGeo real real | Done

text \<open>
  The component's state: \<open>weather\<close> (the forecast body, of type \<open>'w\<close>, or \<open>null\<close>) and
  \<open>clickedInfo\<close>; \<open>tasks\<close> holds the calls of \<open>handleGlobeClick\<close> made so far, in order.
\<close>

record 'w App = Runtime +
  weather :: "'w option"
  clickedInfo :: ClickedInfo
  tasks :: "phase list"

text \<open>\<open>useState(null)\<close> and \<open>useState({ position: null, countryName: null })\<close>.\<close>

definition App_init :: "'w App" where
  "App_init =
     \<lparr>console = [],
      weather = None,
      clickedInfo = \<lparr>position = None, countryName = None\<rparr>,
      tasks = []\<rparr>"

text \<open>\<open>handleGlobeClick\<close> up to its first \<open>await\<close>.\<close>

definition handleGlobeClick_call :: "real \<Rightarrow> real \<Rightarrow> Vector3 \<Rightarrow> 'w App \<Rightarrow> 'w App" where
  "handleGlobeClick_call lat lon pos s =
     s\<lparr>clickedInfo := \<lparr>position = Some pos, countryName = None\<rparr>,
       tasks := tasks s @ [AwaitWeather lat lon]\<rparr>"

text \<open>The first \<open>try\<close> statement after its awaits.\<close>

fun handleGlobeClick_weather :: "'w settled \<Rightarrow> 'w App \<Rightarrow> 'w App" where
  "handleGlobeClick_weather (Resolved weatherData) s = s\<lparr>weather := Some weatherData\<rparr>"
| "handleGlobeClick_weather (Failed error) s =
     s\<lparr>console := console s @ [(''Failed to fetch weather data:'', error)],
       weather := None\<rparr>"

text \<open>\<open>setClickedInfo(prev => ({ ...prev, countryName: name }))\<close>.\<close>

definition setCountryName :: "string \<Rightarrow> 'w App \<Rightarrow> 'w App" where
  "setCountryName name s = s\<lparr>clickedInfo := (clickedInfo s)\<lparr>countryName := Some name\<rparr>\<rparr>"

text \<open>\<open>geoData.address && geoData.address.country\<close>: the country when it is truthy.\<close>

definition country_of :: "GeoData \<Rightarrow> string option" where
  "country_of geoData =
     (case address geoData of
        None \<Rightarrow> None
      | Some a \<Rightarrow> (case country a of None \<Rightarrow> None | Some c \<Rightarrow> if c = [] then None else Some c))"

text \<open>The second \<open>try\<close> statement after its awaits; the function then returns.\<close>

fun handleGlobeClick_geo :: "GeoData settled \<Rightarrow> 'w App \<Rightarrow> 'w App \<times> completion" where
  "handleGlobeClick_geo (Resolved geoData) s =
     (case country_of geoData of
        Some c \<Rightarrow> (setCountryName c s, Fulfilled)
      | None \<Rightarrow> (setCountryName ''Unknown Country'' s, Fulfilled))"
| "handleGlobeClick_geo (Failed error) s =
     (setCountryName ''Unknown Country''
        (s\<lparr>console := console s @ [(''Failed to fetch country name:'', error)]\<rparr>),
      Fulfilled)"

definition handleCloseWeather :: "'w App \<Rightarrow> 'w App" where
  "handleCloseWeather s =
     s\<lparr>weather := None, clickedInfo := \<lparr>position = None, countryName = None\<rparr>\<rparr>"

text \<open>The condition under which \<open>App\<close> renders the panel: \<open>weather && clickedInfo.position\<close>.\<close>

definition WeatherInfo_rendered :: "'w App \<Rightarrow> bool" where
  "WeatherInfo_rendered s \<longleftrightarrow> weather s \<noteq> None \<and> position (clickedInfo s) \<noteq> None"

text \<open>
  The events of the component: a click on the globe (with the arguments that
  \<open>handleClick\<close> passes on), a click on the panel's close button, and the settling of the
  request that call number \<open>i\<close> of \<open>handleGlobeClick\<close> is waiting for.  The close button
  is part of the panel, so it can be clicked only while the panel is rendered; in any
  other state the event does not happen and the state stays as it is.
\<close>

datatype 'w app_event =
    Click real real Vector3
  | CloseWeather
  | WeatherSettled nat "'w settled"
  | GeoSettled nat "GeoData settled"

fun app_step :: "'w app_event \<Rightarrow> 'w App \<Rightarrow> 'w App" where
  "app_step (Click lat lon pos) s = handleGlobeClick_call lat lon pos s"
| "app_step CloseWeather s = (if WeatherInfo_rendered s then handleCloseWeather s else s)"
| "app_step (WeatherSettled i outcome) s =
     (if i < length (tasks s)
      then (case tasks s ! i of
              AwaitWeather lat lon \<Rightarrow>
                (handleGlobeClick_weather outcome s)\<lparr>tasks := (tasks s)[i := AwaitGeo lat lon]\<rparr>
            | _ \<Rightarrow> s)
      else s)"
| "app_step (GeoSettled i outcome) s =
     (if i < length (tasks s)
      then (case tasks s ! i of
              AwaitGeo lat lon \<Rightarrow>
                (fst (handleGlobeClick_geo outcome s))\<lparr>tasks := (tasks s)[i := Done]\<rparr>
            | _ \<Rightarrow> s)
      else s)"

definition app_run :: "'w app_event list \<Rightarrow> 'w App \<Rightarrow> 'w App" where
  "app_run evs s = fold app_step evs s"

text \<open>An event that is the late result of a lookup, not an action of the user.\<close>

fun is_settle :: "'w app_event \<Rightarrow> bool" where
  "is_settle (WeatherSettled i outcome) = True"
| "is_settle (GeoSettled i outcome) = True"
| "is_settle _ = False"

text \<open>
  The selection is cleared when it is as \<open>handleCloseWeather\<close> leaves it; it is populated
  when the clicked position, the forecast and the country name are all present.
\<close>

definition cleared :: "'w App \<Rightarrow> bool" where
  "cleared s \<longleftrightarrow> weather s = None \<and> clickedInfo s = \<lparr>position = None, countryName = None\<rparr>"



section \<open>The weather description\<close>

lemma getWeatherDescription_unlisted:
  "map_of codes n = None \<Longrightarrow> getWeatherDescription (Number n) = ''Unknown weather''"
  by (simp add: getWeatherDescription_def codes_at_def js_or_def)

text \<open>
  C10.  \<open>getWeatherDescription\<close> returns, for each of the sixteen WMO codes of its table,
  the description the table gives, and the string \<open>Unknown weather\<close> for every other
  number and for \<open>undefined\<close>.  Its result is always a string: no branch fails.
\<close>

theorem getWeatherDescription_table:
  "getWeatherDescription (Number 0) = ''Clear sky'' \<and>
   getWeatherDescription (Number 1) = ''Mainly clear'' \<and>
   getWeatherDescription (Number 2) = ''Partly cloudy'' \<and>
   getWeatherDescription (Number 3) = ''Overcast'' \<and>
   getWeatherDescription (Number 45) = ''Fog'' \<and>
   getWeatherDescription (Number 48) = ''Rime fog'' \<and>
   getWeatherDescription (Number 51) = ''Light drizzle'' \<and>
   getWeatherDescription (Number 53) = ''Moderate drizzle'' \<and>
   getWeatherDescription (Number 55) = ''Dense drizzle'' \<and>
   getWeatherDescription (Number 61) = ''Slight rain'' \<and>
   getWeatherDescription (Number 63) = ''Moderate rain'' \<and>
   getWeatherDescription (Number 65) = ''Heavy rain'' \<and>
   getWeatherDescription (Number 80) = ''Slight rain showers'' \<and>
   getWeatherDescription (Number 81) = ''Moderate rain showers'' \<and>
   getWeatherDescription (Number 82) = ''Violent rain showers'' \<and>
   getWeatherDescription (Number 95) = ''Thunderstorm'' \<and>
   (n \<notin> {0, 1, 2, 3, 45, 48, 51, 53, 55, 61, 63, 65, 80, 81, 82, 95} \<longrightarrow>
      getWeatherDescription (Number n) = ''Unknown weather'') \<and>
   getWeatherDescription Undefined = ''Unknown weather''"
proof -
  have listed: "getWeatherDescription (Number k) = d" if "map_of codes k = Some d" "d \<noteq> []" for k d
    using that by (simp add: getWeatherDescription_def codes_at_def js_or_def)
  have other: "getWeatherDescription (Number n) = ''Unknown weather''"
    if "n \<notin> {0, 1, 2, 3, 45, 48, 51, 53, 55, 61, 63, 65, 80, 81, 82, 95}"
  proof (rule getWeatherDescription_unlisted)
    show "map_of codes n = None" using that by (simp add: codes_def)
  qed
  have undef: "getWeatherDescription Undefined = ''Unknown weather''"
    by (simp add: getWeatherDescription_def codes_at_def js_or_def)
  show ?thesis
    using other undef by (simp add: listed codes_def)
qed

theorem getWeatherDescription_table_witness:
  "(4::int) \<notin> {0, 1, 2, 3, 45, 48, 51, 53, 55, 61, 63, 65, 80, 81, 82, 95} \<and>
   getWeatherDescription (Number 4) = ''Unknown weather'' \<and>
   getWeatherDescription (Number 95) = ''Thunderstorm''"
  using getWeatherDescription_table [of 4] by simp

section \<open>From a coordinate to a point and back\<close>

lemma atan2_scale: "0 < k \<Longrightarrow> atan2 (k * b) (k * a) = atan2 b a"
  by (auto simp: atan2_def zero_less_mult_iff mult_less_0_iff zero_le_mult_iff)

lemma atan2_sin_cos:
  assumes "- pi < t" "t \<le> pi"
  shows "atan2 (sin t) (cos t) = t"
proof -
  consider (mid) "- (pi / 2) < t" "t < pi / 2"
    | (top) "t = pi / 2" | (bot) "t = - (pi / 2)"
    | (left) "pi / 2 < t" | (right) "t < - (pi / 2)"
    by linarith
  then show ?thesis
  proof cases
    case mid
    then have c: "0 < cos t" by (simp add: cos_gt_zero_pi)
    have "arctan (sin t / cos t) = t"
      using arctan_tan[of t] mid by (simp add: tan_def)
    with c show ?thesis by (simp add: atan2_def)
  next
    case top
    show ?thesis unfolding top by (simp add: atan2_def)
  next
    case bot
    show ?thesis unfolding bot by (simp add: atan2_def)
  next
    case left
    let ?u = "t - pi"
    have u: "- (pi / 2) < ?u" "?u < pi / 2" using left assms by simp_all
    have cu: "0 < cos ?u" using u by (rule cos_gt_zero_pi)
    have "cos ?u = - cos t" by (simp add: cos_diff)
    with cu have c: "cos t < 0" by simp
    have "0 \<le> sin (pi - t)" using left assms by (intro sin_ge_zero) simp_all
    then have s: "0 \<le> sin t" by (simp add: sin_diff)
    have "tan ?u = sin t / cos t" by (simp add: tan_def sin_diff cos_diff)
    then have "arctan (sin t / cos t) = ?u" using arctan_tan[of ?u] u by simp
    with c s show ?thesis by (simp add: atan2_def)
  next
    case right
    let ?u = "t + pi"
    have u: "- (pi / 2) < ?u" "?u < pi / 2" using right assms by simp_all
    have cu: "0 < cos ?u" using u by (rule cos_gt_zero_pi)
    have "cos ?u = - cos t" by (simp add: cos_add)
    with cu have c: "cos t < 0" by simp
    have "0 < sin ?u" using right assms by (intro sin_gt_zero) simp_all
    then have s: "sin t < 0" by (simp add: sin_add)
    have "tan ?u = sin t / cos t" by (simp add: tan_def sin_add cos_add)
    then have "arctan (sin t / cos t) = ?u" using arctan_tan[of ?u] u by simp
    with c s show ?thesis by (simp add: atan2_def)
  qed
qed

lemma phi_range:
  fixes la :: real
  shows "la \<le> 90 \<Longrightarrow> 0 \<le> (90 - la) * (pi / 180)"
    and "- 90 \<le> la \<Longrightarrow> (90 - la) * (pi / 180) \<le> pi"
    and "la < 90 \<Longrightarrow> 0 < (90 - la) * (pi / 180)"
    and "- 90 < la \<Longrightarrow> (90 - la) * (pi / 180) < pi"
proof -
  have pos: "0 < pi / 180" by simp
  show "la \<le> 90 \<Longrightarrow> 0 \<le> (90 - la) * (pi / 180)" by simp
  show "la < 90 \<Longrightarrow> 0 < (90 - la) * (pi / 180)" by simp
  show "(90 - la) * (pi / 180) \<le> pi" if "- 90 \<le> la"
  proof -
    have "(90 - la) * (pi / 180) \<le> 180 * (pi / 180)"
      using that by (intro mult_right_mono) simp_all
    then show ?thesis by simp
  qed
  show "(90 - la) * (pi / 180) < pi" if "- 90 < la"
  proof -
    have "(90 - la) * (pi / 180) < 180 * (pi / 180)"
      using that pos by (intro mult_strict_right_mono) simp_all
    then show ?thesis by simp
  qed
qed

lemma theta_range:
  fixes lo :: real
  shows "- 180 \<le> lo \<Longrightarrow> 0 \<le> (lo + 180) * (pi / 180)"
    and "lo \<le> 180 \<Longrightarrow> (lo + 180) * (pi / 180) \<le> 2 * pi"
    and "lo \<le> 90 \<longleftrightarrow> (lo + 180) * (pi / 180) \<le> 3 * pi / 2"
proof -
  show "- 180 \<le> lo \<Longrightarrow> 0 \<le> (lo + 180) * (pi / 180)" by simp
  show "(lo + 180) * (pi / 180) \<le> 2 * pi" if "lo \<le> 180"
  proof -
    have "(lo + 180) * (pi / 180) \<le> 360 * (pi / 180)"
      using that by (intro mult_right_mono) simp_all
    then show ?thesis by simp
  qed
  have "(lo + 180) * (pi / 180) \<le> 270 * (pi / 180) \<longleftrightarrow> lo + 180 \<le> 270"
    by (rule mult_le_cancel_right_pos) simp
  then show "lo \<le> 90 \<longleftrightarrow> (lo + 180) * (pi / 180) \<le> 3 * pi / 2" by simp
qed

lemma sphere_norm:
  fixes r sp cp st ct :: real
  assumes "sp\<^sup>2 + cp\<^sup>2 = 1" "st\<^sup>2 + ct\<^sup>2 = 1"
  shows "(- (r * sp * ct)) * (- (r * sp * ct)) + (r * cp) * (r * cp)
         + (r * sp * st) * (r * sp * st) = r\<^sup>2"
proof -
  have "(- (r * sp * ct)) * (- (r * sp * ct)) + (r * cp) * (r * cp)
         + (r * sp * st) * (r * sp * st) = r\<^sup>2 * (sp\<^sup>2 * (st\<^sup>2 + ct\<^sup>2) + cp\<^sup>2)"
    by (simp add: power2_eq_square algebra_simps)
  also have "\<dots> = r\<^sup>2" by (simp add: assms)
  finally show ?thesis .
qed

lemma length3_getVector:
  assumes "0 < r"
  shows "length3 (getVectorFromLatLon la lo r) = r"
proof -
  let ?p = "(90 - la) * (pi / 180)" and ?t = "(lo + 180) * (pi / 180)"
  have "length3 (getVectorFromLatLon la lo r) =
        sqrt ((- (r * sin ?p * cos ?t)) * (- (r * sin ?p * cos ?t)) + (r * cos ?p) * (r * cos ?p)
         + (r * sin ?p * sin ?t) * (r * sin ?p * sin ?t))"
    by (simp only: length3_def getVectorFromLatLon_def Let_def Vector3.sel)
  also have "\<dots> = sqrt (r\<^sup>2)"
    by (simp only: sphere_norm[OF sin_cos_squared_add sin_cos_squared_add])
  also have "\<dots> = r" using assms by simp
  finally show ?thesis .
qed

lemma roundtrip_latitude:
  assumes "0 < r" "- 90 \<le> la" "la \<le> 90"
  shows "map_option fst (handleClick_latlon (getVectorFromLatLon la lo r)) = Some la"
proof -
  let ?p = "(90 - la) * (pi / 180)"
  have p: "0 \<le> ?p" "?p \<le> pi" using assms phi_range by simp_all
  have len: "length3 (getVectorFromLatLon la lo r) = r" by (rule length3_getVector[OF assms(1)])
  have y: "vy (getVectorFromLatLon la lo r) = r * cos ?p"
    by (simp add: getVectorFromLatLon_def Let_def)
  have "arccos (r * cos ?p / r) = ?p" using assms(1) p by (simp add: arccos_cos)
  then show ?thesis
    using assms(1) by (simp add: handleClick_latlon_def len y Let_def field_simps)
qed

lemma roundtrip_longitude:
  assumes "0 < r" "- 90 < la" "la < 90" "- 180 \<le> lo" "lo \<le> 180"
  shows "map_option snd (handleClick_latlon (getVectorFromLatLon la lo r))
         = Some (if lo \<le> 90 then lo + 90 else lo - 270)"
proof -
  let ?p = "(90 - la) * (pi / 180)"
  define th where "th = (lo + 180) * (pi / 180)"
  have p: "0 < ?p" "?p < pi" using assms phi_range by simp_all
  have sp: "0 < sin ?p" using p by (rule sin_gt_zero)
  then have k: "0 < r * sin ?p" using assms(1) by simp
  have len: "length3 (getVectorFromLatLon la lo r) \<noteq> 0"
    using length3_getVector[OF assms(1), of la lo] assms(1) by simp
  define u where "u = (if lo \<le> 90 then th - pi / 2 else th - pi / 2 - 2 * pi)"
  have t: "0 \<le> th" "th \<le> 2 * pi" using assms theta_range unfolding th_def by simp_all
  have split: "lo \<le> 90 \<longleftrightarrow> th \<le> 3 * pi / 2" unfolding th_def by (rule theta_range(3))
  have u: "- pi < u" "u \<le> pi"
  proof -
    show "- pi < u"
    proof (cases "lo \<le> 90")
      case True
      have "- pi < th - pi / 2" using t pi_gt_zero by linarith
      then show ?thesis using True by (simp add: u_def)
    next
      case False
      then have "3 * pi / 2 < th" using split by simp
      then show ?thesis using False by (simp add: u_def)
    qed
    show "u \<le> pi"
    proof (cases "lo \<le> 90")
      case True
      then have "th \<le> 3 * pi / 2" using split by simp
      then show ?thesis using True by (simp add: u_def)
    next
      case False
      have "th - pi / 2 - 2 * pi \<le> pi" using t pi_gt_zero by linarith
      then show ?thesis using False by (simp add: u_def)
    qed
  qed
  have per: "sin (x - 2 * pi) = sin x" "cos (x - 2 * pi) = cos x" for x :: real
    by (simp_all add: sin_diff cos_diff)
  have quarter: "sin (th - pi / 2) = - cos th" "cos (th - pi / 2) = sin th"
    by (simp_all add: sin_diff cos_diff)
  have su: "sin u = - cos th" and cu: "cos u = sin th"
    unfolding u_def by (simp_all only: per quarter if_distrib[of sin] if_distrib[of cos] if_cancel)
  have "atan2 (vx (getVectorFromLatLon la lo r)) (vz (getVectorFromLatLon la lo r))
        = atan2 ((r * sin ?p) * (- cos th)) ((r * sin ?p) * sin th)"
    by (simp add: getVectorFromLatLon_def Let_def th_def)
  also have "\<dots> = atan2 (sin u) (cos u)" unfolding su cu by (rule atan2_scale[OF k])
  also have "\<dots> = u" by (rule atan2_sin_cos[OF u])
  finally have a: "atan2 (vx (getVectorFromLatLon la lo r)) (vz (getVectorFromLatLon la lo r)) = u" .
  have "u * 180 / pi = (if lo \<le> 90 then lo + 90 else lo - 270)"
    unfolding u_def th_def by (simp add: field_simps)
  then show ?thesis using len by (simp add: handleClick_latlon_def Let_def a)
qed

lemma length3_multiplyScalar:
  assumes "0 < k"
  shows "length3 (multiplyScalar k p) = k * length3 p"
proof -
  have "(k * vx p) * (k * vx p) + (k * vy p) * (k * vy p) + (k * vz p) * (k * vz p)
        = k\<^sup>2 * (vx p * vx p + vy p * vy p + vz p * vz p)"
    by (simp add: power2_eq_square algebra_simps)
  then show ?thesis
    using assms by (simp add: length3_def multiplyScalar_def real_sqrt_mult)
qed

lemma getVector_east: "getVectorFromLatLon 0 90 r = Vector3 0 0 (- r)"
proof -
  have e: "(3 * pi / 2 :: real) = 3 / 2 * pi" by simp
  have c: "cos (3 * pi / 2) = 0" unfolding e by (rule cos_3over2_pi)
  have s: "sin (3 * pi / 2) = - 1" unfolding e by (rule sin_3over2_pi)
  show ?thesis by (simp add: getVectorFromLatLon_def c s)
qed

text \<open>
  C1.  The claim is that the coordinate computed by \<open>handleClick\<close> from the point that
  \<open>getVectorFromLatLon\<close> gives for a coordinate is that coordinate again.  For latitude 0,
  longitude 0 and radius 1 the point is \<open>(1, 0, 0)\<close>, and \<open>handleClick\<close> computes latitude 0
  and longitude 90 from it: \<open>getVectorFromLatLon\<close> puts longitude 0 on the positive x
  axis, while \<open>Math.atan2(point.x, point.z)\<close> measures the longitude from the positive z
  axis.  The position that \<open>handleClick\<close> then passes on for the panel, computed by
  \<open>getVectorFromLatLon\<close> from that latitude and longitude, lies on the negative z axis,
  a quarter turn away from the clicked point.  By \<open>roundtrip_latitude\<close> and
  \<open>roundtrip_longitude\<close> the same holds away from the poles everywhere: the latitude
  comes back, the longitude comes back turned by 90 degrees.
\<close>

theorem roundtrip_equator_turned:
  "getVectorFromLatLon 0 0 1 = Vector3 1 0 0 \<and>
   handleClick_latlon (getVectorFromLatLon 0 0 1) = Some (0, 90) \<and>
   handleClick (Vector3 1 0 0) = Some (0, 90, Vector3 0 0 (- 1.05))"
proof -
  have p: "getVectorFromLatLon 0 0 1 = Vector3 1 0 0"
    by (simp add: getVectorFromLatLon_def)
  have u: "handleClick_latlon (Vector3 1 0 0) = Some (0, 90)"
    by (simp add: handleClick_latlon_def length3_def atan2_def)
  show ?thesis
    using u by (simp add: p handleClick_def getVector_east)
qed

text \<open>
  C9.  For every point \<open>p\<close> other than the origin and every factor \<open>k > 0\<close>, \<open>handleClick\<close>
  computes the same latitude and longitude from \<open>k \<cdot> p\<close> as from \<open>p\<close>, and it does
  compute one: the latitude is taken from \<open>point.y\<close> divided by the length of the point,
  and \<open>Math.atan2\<close> depends on the direction of \<open>(point.x, point.z)\<close> only.
\<close>

theorem handleClick_scale_invariant:
  assumes "0 < k" and "length3 p \<noteq> 0"
  shows "handleClick_latlon (multiplyScalar k p) = handleClick_latlon p \<and>
         handleClick_latlon p \<noteq> None"
proof -
  have len: "length3 (multiplyScalar k p) = k * length3 p"
    by (rule length3_multiplyScalar[OF assms(1)])
  have "vy (multiplyScalar k p) = k * vy p" by (simp add: multiplyScalar_def)
  then have ratio: "vy (multiplyScalar k p) / length3 (multiplyScalar k p) = vy p / length3 p"
    using assms by (simp add: len)
  have angle: "atan2 (vx (multiplyScalar k p)) (vz (multiplyScalar k p)) = atan2 (vx p) (vz p)"
    using atan2_scale[OF assms(1)] by (simp add: multiplyScalar_def)
  have nz: "length3 (multiplyScalar k p) \<noteq> 0" using assms by (simp add: len)
  show ?thesis
    using assms(2) nz by (simp add: handleClick_latlon_def ratio angle)
qed

theorem handleClick_scale_invariant_witness:
  "(0::real) < 2 \<and> length3 (Vector3 1 2 2) \<noteq> 0 \<and>
   handleClick_latlon (multiplyScalar 2 (Vector3 1 2 2)) = handleClick_latlon (Vector3 1 2 2) \<and>
   handleClick_latlon (Vector3 1 2 2) \<noteq> None"
proof -
  have k: "(0::real) < 2" by simp
  have nz: "length3 (Vector3 1 2 2) \<noteq> 0" by (simp add: length3_def)
  show ?thesis
    using k nz handleClick_scale_invariant [OF k nz] by simp
qed

section \<open>The schedule of the satellite tracker\<close>

lemma div_step_hit:
  fixes c d :: nat
  assumes "0 < d" "d * (c div d + 1) \<le> Suc c"
  shows "Suc c div d = c div d + 1" "Suc c = d * (c div d + 1)"
proof -
  have lt: "c < d * (c div d + 1)"
    using assms(1) by (simp add: dividend_less_times_div mult.commute)
  with assms(2) show eq: "Suc c = d * (c div d + 1)" by linarith
  then have "Suc c div d = (d * (c div d + 1)) div d" by simp
  also have "\<dots> = c div d + 1" using assms(1) by simp
  finally show "Suc c div d = c div d + 1" .
qed

lemma div_step_miss:
  fixes c d :: nat
  assumes "0 < d" "\<not> d * (c div d + 1) \<le> Suc c"
  shows "Suc c div d = c div d"
proof -
  have "d * (c div d) \<le> c" by simp
  then have lo: "d * (c div d) \<le> Suc c" by linarith
  have hi: "Suc c < d * (c div d + 1)" using assms(2) by simp
  show ?thesis
    using lo hi assms(1) by (metis Suc_eq_plus1 div_nat_eqI)
qed

lemma timer_inv_mount: "timer_inv mount"
  by (simp add: timer_inv_def mount_def)

lemma ms_clock: "clock (ms s) = Suc (clock s)"
  by (simp add: ms_def Let_def fetchIssPosition_call_def split: option.splits)

lemma timer_inv_ms:
  assumes inv: "timer_inv s"
  shows "timer_inv (ms s)"
proof (cases "2000 * (clock s div 2000 + 1) \<le> Suc (clock s)")
  case True
  have d: "Suc (clock s) div 2000 = clock s div 2000 + 1"
    and e: "Suc (clock s) = 2000 * (clock s div 2000 + 1)"
    using div_step_hit[of 2000 "clock s"] True by simp_all
  show ?thesis
    using inv True e
    by (simp add: timer_inv_def ms_def Let_def fetchIssPosition_call_def d)
next
  case False
  have d: "Suc (clock s) div 2000 = clock s div 2000"
    using div_step_miss[of 2000 "clock s"] False by simp
  show ?thesis
    using inv False by (simp add: timer_inv_def ms_def Let_def d)
qed

lemma ms_pending:
  assumes "pending s = [0..<length (requests s)]"
  shows "pending (ms s) = [0..<length (requests (ms s))]"
  using assms by (simp add: ms_def Let_def fetchIssPosition_call_def split: option.splits)

lemma elapse_mount:
  "timer_inv ((ms ^^ n) mount) \<and> clock ((ms ^^ n) mount) = n \<and>
   pending ((ms ^^ n) mount) = [0..<length (requests ((ms ^^ n) mount))]"
proof (induction n)
  case 0
  show ?case using timer_inv_mount by (simp add: mount_def)
next
  case (Suc n)
  then show ?case by (simp add: timer_inv_ms ms_clock ms_pending)
qed

lemma elapse_mount_pending: "pending ((ms ^^ n) mount) = [0..<n div 2000]"
proof -
  have "length (requests ((ms ^^ n) mount)) = n div 2000"
    using elapse_mount[of n] by (simp add: timer_inv_def)
  then show ?thesis using elapse_mount[of n] by simp
qed

lemma settled_timer:
  "interval (fst (fetchIssPosition_settled outcome s)) = interval s \<and>
   clock (fst (fetchIssPosition_settled outcome s)) = clock s \<and>
   requests (fst (fetchIssPosition_settled outcome s)) = requests s"
  by (cases outcome) simp_all

lemma elapse_inv: "timer_inv s \<Longrightarrow> timer_inv ((ms ^^ n) s)"
  by (induction n) (simp_all add: timer_inv_ms)

lemma elapse_clock: "clock ((ms ^^ n) s) = clock s + n"
  by (induction n) (simp_all add: ms_clock)

lemma poll_step_inv: "timer_inv s \<Longrightarrow> timer_inv (poll_step e s)"
proof (cases e)
  case (Elapse n)
  assume "timer_inv s"
  then show ?thesis by (simp add: Elapse elapse_inv)
next
  case (Settle i outcome)
  assume "timer_inv s"
  then show ?thesis by (simp add: Settle timer_inv_def settled_timer)
qed

lemma poll_step_clock: "clock (poll_step e s) = clock s + elapsed [e]"
  by (cases e) (simp_all add: elapse_clock settled_timer)

lemma poll_run_inv:
  "timer_inv s \<Longrightarrow> timer_inv (poll_run evs s) \<and> clock (poll_run evs s) = clock s + elapsed evs"
proof (induction evs arbitrary: s)
  case Nil
  then show ?case by (simp add: poll_run_def)
next
  case (Cons e evs)
  have step: "timer_inv (poll_step e s)" by (rule poll_step_inv[OF Cons.prems])
  have "elapsed (e # evs) = elapsed [e] + elapsed evs" by (cases e) simp_all
  then show ?case
    using Cons.IH[OF step] by (simp add: poll_run_def poll_step_clock)
qed

lemma poll_run_requests:
  "requests (poll_run evs mount) = map (\<lambda>k. 2000 * k) [1..<Suc (elapsed evs div 2000)]"
proof -
  have "timer_inv (poll_run evs mount)" and "clock (poll_run evs mount) = elapsed evs"
    using poll_run_inv[OF timer_inv_mount, of evs] by (simp_all add: mount_def)
  then show ?thesis by (simp add: timer_inv_def)
qed

text \<open>
  C2, as the claim states it: at most one fetch is in flight.  After 4000 ms in which no
  response has arrived, the requests sent at 2000 ms and at 4000 ms are both pending.
\<close>

theorem two_fetches_pending: "pending (poll_run [Elapse 4000] mount) = [0, 1]"
proof -
  have "[0..<4000 div 2000] = [0, Suc 0]" by (simp add: upt_rec)
  then show ?thesis by (simp add: poll_run_def elapse_mount_pending)
qed

text \<open>
  C2, amended.  Nothing limits the fetches in flight: in every state, whatever is
  pending, a firing of the interval sends a request and adds it to the pending ones.
  While no response arrives, all the requests sent are pending together: \<open>n div 2000\<close>
  of them after \<open>n\<close> ms.
\<close>

theorem tick_never_skipped:
  "(interval s = Some due \<and> due \<le> Suc (clock s) \<longrightarrow>
      pending (ms s) = pending s @ [length (requests s)] \<and>
      requests (ms s) = requests s @ [Suc (clock s)]) \<and>
   pending (poll_run [Elapse n] mount) = [0..<n div 2000]"
proof -
  have "pending (ms s) = pending s @ [length (requests s)] \<and>
        requests (ms s) = requests s @ [Suc (clock s)]"
    if "interval s = Some due" "due \<le> Suc (clock s)"
    using that by (simp add: ms_def Let_def fetchIssPosition_call_def)
  then show ?thesis by (simp add: poll_run_def elapse_mount_pending)
qed

theorem tick_never_skipped_witness:
  "interval ((ms ^^ 3999) mount) = Some 4000 \<and>
   4000 \<le> Suc (clock ((ms ^^ 3999) mount)) \<and>
   pending ((ms ^^ 3999) mount) = [0] \<and>
   pending (ms ((ms ^^ 3999) mount)) = [0, 1] \<and>
   requests (ms ((ms ^^ 3999) mount)) = [2000, 4000]"
proof -
  have inv: "timer_inv ((ms ^^ 3999) mount)" and c: "clock ((ms ^^ 3999) mount) = 3999"
    using elapse_mount[of 3999] by simp_all
  have i: "interval ((ms ^^ 3999) mount) = Some 4000"
    and r: "requests ((ms ^^ 3999) mount) = [2000]"
    using inv by (simp_all add: timer_inv_def c upt_rec)
  have p: "pending ((ms ^^ 3999) mount) = [0]"
    using elapse_mount_pending[of 3999] by (simp add: upt_rec)
  have h: "interval ((ms ^^ 3999) mount) = Some 4000 \<and> 4000 \<le> Suc (clock ((ms ^^ 3999) mount))"
    using i c by simp
  show ?thesis
    using h tick_never_skipped [of "(ms ^^ 3999) mount" 4000 0] by (simp add: p r c)
qed

text \<open>
  C5, as the claim states it: a fetch is attempted at once on start.  The mounted
  component has sent no request, and none after 1999 ms either.
\<close>

theorem no_fetch_on_start:
  "requests mount = [] \<and> pending mount = [] \<and> requests (poll_run [Elapse 1999] mount) = []"
  by (simp add: poll_run_requests) (simp add: mount_def)

text \<open>
  C5, amended.  On start the tracker sends no request.  Whatever events happen after the
  start (time passing, responses arriving or failing, in any order), the requests sent
  are those of the times 2000, 4000, 6000, ... ms reached so far: the first attempt
  comes one interval after the start, the following ones every 2000 ms, and the outcome
  of an attempt changes nothing of this.
\<close>

theorem requests_every_interval:
  "requests (poll_run [] mount) = [] \<and>
   requests (poll_run evs mount) = map (\<lambda>k. 2000 * k) [1..<Suc (elapsed evs div 2000)]"
  by (simp add: poll_run_requests)

lemma ms_keeps_position: "issPosition (ms s) = issPosition s \<and> console (ms s) = console s"
  by (simp add: ms_def Let_def fetchIssPosition_call_def split: option.splits)

lemma elapse_keeps_position:
  "issPosition ((ms ^^ n) s) = issPosition s \<and> console ((ms ^^ n) s) = console s"
  by (induction n) (simp_all add: ms_keeps_position)

lemma elapse_4000:
  "pending ((ms ^^ 4000) mount) = [0, 1] \<and>
   issPosition ((ms ^^ 4000) mount) = \<lparr>iss_lat = Some 0, iss_lon = Some 0\<rparr> \<and>
   console ((ms ^^ 4000) mount) = []"
proof -
  have "[0..<4000 div 2000] = [0, Suc 0]" by (simp add: upt_rec)
  then have "pending ((ms ^^ 4000) mount) = [0, 1]" by (simp add: elapse_mount_pending)
  then show ?thesis by (simp add: elapse_keeps_position) (simp add: mount_def)
qed

text \<open>
  C6, as the claim states it: after a failed fetch attempt the position held is still
  the one held before.  The tracker holds the position (10, 20) from the response to its
  first request.  Its second request fails at the server, which answers with an error
  status and a body that parses but holds no \<open>latitude\<close> and no \<open>longitude\<close>.  Neither
  \<open>fetch\<close> nor \<open>response.json()\<close> throws for such a response and the code does not look
  at the status, so the held position is replaced by two undefined fields and nothing
  is written to the console.
\<close>

theorem error_body_blanks_position:
  "issPosition (poll_run [Elapse 4000,
                          Settle 0 (Resolved \<lparr>latitude = Some 10, longitude = Some 20\<rparr>)] mount)
     = \<lparr>iss_lat = Some 10, iss_lon = Some 20\<rparr> \<and>
   issPosition (poll_run [Elapse 4000,
                          Settle 0 (Resolved \<lparr>latitude = Some 10, longitude = Some 20\<rparr>),
                          Settle 1 (Resolved \<lparr>latitude = None, longitude = None\<rparr>)] mount)
     = \<lparr>iss_lat = None, iss_lon = None\<rparr> \<and>
   console (poll_run [Elapse 4000,
                      Settle 0 (Resolved \<lparr>latitude = Some 10, longitude = Some 20\<rparr>),
                      Settle 1 (Resolved \<lparr>latitude = None, longitude = None\<rparr>)] mount)
     = []"
  by (simp add: poll_run_def elapse_4000)

text \<open>
  C6, amended.  When a fetch attempt fails by an error thrown in the \<open>try\<close> block (the
  request is rejected, the body does not parse, or reading the body's fields throws),
  the position the tracker holds stays what it was, the failure is written to the
  console, the function completes normally, and the interval stays registered.
\<close>

theorem failed_fetch_keeps_position:
  assumes "issPosition s = V" and "i \<in> set (pending s)"
  shows "issPosition (poll_step (Settle i (Failed error)) s) = V \<and>
         console (poll_step (Settle i (Failed error)) s) =
           console s @ [(''Failed to fetch ISS position:'', error)] \<and>
         snd (fetchIssPosition_settled (Failed error) s) = Fulfilled \<and>
         interval (poll_step (Settle i (Failed error)) s) = interval s"
  using assms by simp

theorem failed_fetch_keeps_position_witness:
  "issPosition (poll_run [Elapse 4000,
                          Settle 0 (Resolved \<lparr>latitude = Some 10, longitude = Some 20\<rparr>)] mount)
     = \<lparr>iss_lat = Some 10, iss_lon = Some 20\<rparr> \<and>
   1 \<in> set (pending (poll_run [Elapse 4000,
                          Settle 0 (Resolved \<lparr>latitude = Some 10, longitude = Some 20\<rparr>)] mount)) \<and>
   issPosition (poll_step (Settle 1 (Failed NetworkError))
     (poll_run [Elapse 4000,
                Settle 0 (Resolved \<lparr>latitude = Some 10, longitude = Some 20\<rparr>)] mount))
     = \<lparr>iss_lat = Some 10, iss_lon = Some 20\<rparr> \<and>
   console (poll_step (Settle 1 (Failed NetworkError))
     (poll_run [Elapse 4000,
                Settle 0 (Resolved \<lparr>latitude = Some 10, longitude = Some 20\<rparr>)] mount))
     = [(''Failed to fetch ISS position:'', NetworkError)]"
proof -
  let ?s = "poll_run [Elapse 4000,
                Settle 0 (Resolved \<lparr>latitude = Some 10, longitude = Some 20\<rparr>)] mount"
  have v: "issPosition ?s = \<lparr>iss_lat = Some 10, iss_lon = Some 20\<rparr>"
    by (simp add: poll_run_def elapse_4000)
  have p: "1 \<in> set (pending ?s)"
    by (simp add: poll_run_def elapse_4000)
  have c: "console ?s = []"
    by (simp add: poll_run_def elapse_4000)
  show ?thesis
    using v p failed_fetch_keeps_position [OF v p, of NetworkError] by (simp add: c)
qed

section \<open>Late results of the lookups\<close>

lemma weather_keeps_clickedInfo:
  "clickedInfo (handleGlobeClick_weather outcome s) = clickedInfo s"
  by (cases outcome) simp_all

lemma geo_keeps_weather: "weather (fst (handleGlobeClick_geo outcome s)) = weather s"
  by (cases outcome) (simp_all add: setCountryName_def split: option.splits)

lemma geo_keeps_position:
  "position (clickedInfo (fst (handleGlobeClick_geo outcome s))) = position (clickedInfo s)"
  by (cases outcome) (simp_all add: setCountryName_def split: option.splits)

lemma settle_keeps_position:
  assumes "is_settle e"
  shows "position (clickedInfo (app_step e s)) = position (clickedInfo s)"
proof (cases e)
  case (WeatherSettled i outcome)
  then show ?thesis by (simp add: weather_keeps_clickedInfo split: phase.splits)
next
  case (GeoSettled i outcome)
  then show ?thesis by (simp add: geo_keeps_position split: phase.splits)
qed (use assms in simp_all)

lemma settles_keep_position:
  "list_all is_settle evs \<Longrightarrow>
   position (clickedInfo (app_run evs s)) = position (clickedInfo s)"
proof (induction evs arbitrary: s)
  case Nil
  show ?case by (simp add: app_run_def)
next
  case (Cons e evs)
  then have e: "is_settle e" and rest: "list_all is_settle evs" by simp_all
  have "position (clickedInfo (app_run evs (app_step e s))) = position (clickedInfo (app_step e s))"
    by (rule Cons.IH[OF rest])
  then show ?case using settle_keeps_position[OF e, of s] by (simp add: app_run_def)
qed

text \<open>
  C3, as the claim states it: after a dismissal, the results of the lookups that were
  in flight leave the selection cleared.  A first selection is completed, so that the
  panel is shown; the user clicks a second point and, the panel still being shown with
  the forecast of the first, closes it before either lookup of the second selection
  has resolved.  The dismissal clears the selection; the two results of the second
  click, arriving then, put its forecast and its country name into the state again.
\<close>

theorem dismissed_selection_repopulated:
  "WeatherInfo_rendered
     (app_run [Click 10 20 (Vector3 1 0 0),
               WeatherSettled 0 (Resolved (1::nat)),
               GeoSettled 0 (Resolved \<lparr>address = Some \<lparr>country = Some ''France''\<rparr>\<rparr>),
               Click 30 40 (Vector3 0 0 1)] App_init) \<and>
   cleared
     (app_run [Click 10 20 (Vector3 1 0 0),
               WeatherSettled 0 (Resolved (1::nat)),
               GeoSettled 0 (Resolved \<lparr>address = Some \<lparr>country = Some ''France''\<rparr>\<rparr>),
               Click 30 40 (Vector3 0 0 1),
               CloseWeather] App_init) \<and>
   app_run [Click 10 20 (Vector3 1 0 0),
            WeatherSettled 0 (Resolved (1::nat)),
            GeoSettled 0 (Resolved \<lparr>address = Some \<lparr>country = Some ''France''\<rparr>\<rparr>),
            Click 30 40 (Vector3 0 0 1),
            CloseWeather,
            WeatherSettled 1 (Resolved 2),
            GeoSettled 1 (Resolved \<lparr>address = Some \<lparr>country = Some ''Spain''\<rparr>\<rparr>)] App_init
   = \<lparr>console = [], weather = Some 2,
      clickedInfo = \<lparr>position = None, countryName = Some ''Spain''\<rparr>,
      tasks = [Done, Done]\<rparr> \<and>
   \<not> cleared
     (app_run [Click 10 20 (Vector3 1 0 0),
               WeatherSettled 0 (Resolved (1::nat)),
               GeoSettled 0 (Resolved \<lparr>address = Some \<lparr>country = Some ''France''\<rparr>\<rparr>),
               Click 30 40 (Vector3 0 0 1),
               CloseWeather,
               WeatherSettled 1 (Resolved 2),
               GeoSettled 1 (Resolved \<lparr>address = Some \<lparr>country = Some ''Spain''\<rparr>\<rparr>)] App_init)"
  by (simp add: app_run_def App_init_def handleGlobeClick_call_def handleCloseWeather_def
      setCountryName_def country_of_def cleared_def WeatherInfo_rendered_def)

text \<open>
  C3, amended.  A dismissal, which the user can make while the panel is shown, clears
  the selection.  The results of lookups still in flight, whenever and in whatever
  order they arrive afterwards, leave the position of the selection absent, so the
  panel stays hidden; but they are written into the state all the same: when the
  lookups of a selection that was waiting for its forecast at the dismissal complete,
  the forecast that arrives and a country name are in the state again.
\<close>

theorem dismissed_selection_stays_hidden:
  assumes "WeatherInfo_rendered s" and "list_all is_settle evs"
  shows "cleared (app_step CloseWeather s) \<and>
         position (clickedInfo (app_run (CloseWeather # evs) s)) = None \<and>
         \<not> WeatherInfo_rendered (app_run (CloseWeather # evs) s) \<and>
         (i < length (tasks s) \<and> tasks s ! i = AwaitWeather la lo \<longrightarrow>
            weather (app_run [CloseWeather, WeatherSettled i (Resolved w), GeoSettled i outcome] s)
              = Some w \<and>
            countryName (clickedInfo
              (app_run [CloseWeather, WeatherSettled i (Resolved w), GeoSettled i outcome] s))
              \<noteq> None)"
proof -
  have close: "app_step CloseWeather s = handleCloseWeather s"
    using assms(1) by simp
  have c: "cleared (app_step CloseWeather s)"
    unfolding close by (simp add: handleCloseWeather_def cleared_def)
  have "position (clickedInfo (app_run evs (handleCloseWeather s)))
        = position (clickedInfo (handleCloseWeather s))"
    by (rule settles_keep_position[OF assms(2)])
  then have p: "position (clickedInfo (app_run (CloseWeather # evs) s)) = None"
    using assms(1) by (simp add: app_run_def handleCloseWeather_def)
  have late: "weather (app_run [CloseWeather, WeatherSettled i (Resolved w), GeoSettled i outcome] s)
              = Some w \<and>
            countryName (clickedInfo
              (app_run [CloseWeather, WeatherSettled i (Resolved w), GeoSettled i outcome] s))
              \<noteq> None"
    if "i < length (tasks s)" "tasks s ! i = AwaitWeather la lo"
  proof -
    let ?s1 = "(handleGlobeClick_weather (Resolved w) (handleCloseWeather s))
                 \<lparr>tasks := (tasks s)[i := AwaitGeo la lo]\<rparr>"
    have t: "tasks (handleCloseWeather s) = tasks s" by (simp add: handleCloseWeather_def)
    have s1: "app_run [CloseWeather, WeatherSettled i (Resolved w)] s = ?s1"
      using that assms(1) by (simp add: app_run_def t)
    have s2: "app_run [CloseWeather, WeatherSettled i (Resolved w), GeoSettled i outcome] s
              = (fst (handleGlobeClick_geo outcome ?s1))\<lparr>tasks := (tasks ?s1)[i := Done]\<rparr>"
      using that assms(1) by (simp add: app_run_def t)
    have w: "weather (fst (handleGlobeClick_geo outcome ?s1)) = Some w"
      by (simp add: geo_keeps_weather)
    have n: "countryName (clickedInfo (fst (handleGlobeClick_geo outcome ?s1))) \<noteq> None"
      by (cases outcome) (simp_all add: setCountryName_def split: option.splits)
    show ?thesis using w n by (simp add: s2)
  qed
  show ?thesis
    using c p late by (simp add: WeatherInfo_rendered_def)
qed

theorem dismissed_selection_stays_hidden_witness:
  "WeatherInfo_rendered
     (app_run [Click 10 20 (Vector3 1 0 0),
               WeatherSettled 0 (Resolved (1::nat)),
               GeoSettled 0 (Resolved \<lparr>address = Some \<lparr>country = Some ''France''\<rparr>\<rparr>),
               Click 30 40 (Vector3 0 0 1)] App_init) \<and>
   list_all is_settle
     [WeatherSettled 1 (Resolved (2::nat)),
      GeoSettled 1 (Resolved \<lparr>address = Some \<lparr>country = Some ''Spain''\<rparr>\<rparr>)] \<and>
   tasks (app_run [Click 10 20 (Vector3 1 0 0),
               WeatherSettled 0 (Resolved (1::nat)),
               GeoSettled 0 (Resolved \<lparr>address = Some \<lparr>country = Some ''France''\<rparr>\<rparr>),
               Click 30 40 (Vector3 0 0 1)] App_init) = [Done, AwaitWeather 30 40] \<and>
   position (clickedInfo (app_run
     [CloseWeather,
      WeatherSettled 1 (Resolved 2),
      GeoSettled 1 (Resolved \<lparr>address = Some \<lparr>country = Some ''Spain''\<rparr>\<rparr>)]
     (app_run [Click 10 20 (Vector3 1 0 0),
               WeatherSettled 0 (Resolved (1::nat)),
               GeoSettled 0 (Resolved \<lparr>address = Some \<lparr>country = Some ''France''\<rparr>\<rparr>),
               Click 30 40 (Vector3 0 0 1)] App_init))) = None \<and>
   weather (app_run
     [CloseWeather,
      WeatherSettled 1 (Resolved 2),
      GeoSettled 1 (Resolved \<lparr>address = Some \<lparr>country = Some ''Spain''\<rparr>\<rparr>)]
     (app_run [Click 10 20 (Vector3 1 0 0),
               WeatherSettled 0 (Resolved (1::nat)),
               GeoSettled 0 (Resolved \<lparr>address = Some \<lparr>country = Some ''France''\<rparr>\<rparr>),
               Click 30 40 (Vector3 0 0 1)] App_init)) = Some 2"
proof -
  let ?s = "app_run [Click 10 20 (Vector3 1 0 0),
               WeatherSettled 0 (Resolved (1::nat)),
               GeoSettled 0 (Resolved \<lparr>address = Some \<lparr>country = Some ''France''\<rparr>\<rparr>),
               Click 30 40 (Vector3 0 0 1)] App_init"
  let ?evs = "[WeatherSettled 1 (Resolved (2::nat)),
      GeoSettled 1 (Resolved \<lparr>address = Some \<lparr>country = Some ''Spain''\<rparr>\<rparr>)]"
  have s: "?s = \<lparr>console = [], weather = Some 1,
      clickedInfo = \<lparr>position = Some (Vector3 0 0 1), countryName = None\<rparr>,
      tasks = [Done, AwaitWeather 30 40]\<rparr>"
    by (simp add: app_run_def App_init_def handleGlobeClick_call_def setCountryName_def
        country_of_def)
  have r: "WeatherInfo_rendered ?s" unfolding s by (simp add: WeatherInfo_rendered_def)
  have h: "list_all is_settle ?evs" by simp
  have t: "tasks ?s = [Done, AwaitWeather 30 40]" unfolding s by simp
  have i: "1 < length (tasks ?s) \<and> tasks ?s ! 1 = AwaitWeather 30 40" unfolding t by simp
  show ?thesis
    using r h t i
      dismissed_selection_stays_hidden [OF r h, of 1 30 40 2
        "Resolved \<lparr>address = Some \<lparr>country = Some ''Spain''\<rparr>\<rparr>"]
    unfolding s by simp
qed

text \<open>
  C4, as the claim states it: the results of an earlier selection never overwrite a
  field of the current one.  After a second click and its two results the state holds
  the forecast and the country of the second click; the results of the first click,
  arriving then, replace both.
\<close>

theorem earlier_results_overwrite:
  "app_run [Click 10 20 (Vector3 1 0 0),
            Click 30 40 (Vector3 0 0 1),
            WeatherSettled 1 (Resolved (2::nat)),
            GeoSettled 1 (Resolved \<lparr>address = Some \<lparr>country = Some ''Spain''\<rparr>\<rparr>)] App_init
   = \<lparr>console = [], weather = Some 2,
      clickedInfo = \<lparr>position = Some (Vector3 0 0 1), countryName = Some ''Spain''\<rparr>,
      tasks = [AwaitWeather 10 20, Done]\<rparr> \<and>
   app_run [Click 10 20 (Vector3 1 0 0),
            Click 30 40 (Vector3 0 0 1),
            WeatherSettled 1 (Resolved (2::nat)),
            GeoSettled 1 (Resolved \<lparr>address = Some \<lparr>country = Some ''Spain''\<rparr>\<rparr>),
            WeatherSettled 0 (Resolved 1),
            GeoSettled 0 (Resolved \<lparr>address = Some \<lparr>country = Some ''France''\<rparr>\<rparr>)] App_init
   = \<lparr>console = [], weather = Some 1,
      clickedInfo = \<lparr>position = Some (Vector3 0 0 1), countryName = Some ''France''\<rparr>,
      tasks = [Done, Done]\<rparr>"
  by (simp add: app_run_def App_init_def handleGlobeClick_call_def setCountryName_def
      country_of_def)

text \<open>
  C4, amended.  The results of lookups started by earlier selections, whenever and in
  whatever order they arrive, never overwrite the position of the current selection;
  its forecast and its country name are overwritten by whichever result arrives last.
\<close>

theorem earlier_results_keep_position:
  assumes "list_all is_settle evs"
  shows "position (clickedInfo (app_run evs (app_step (Click lat lon pos) s))) = Some pos"
proof -
  have "position (clickedInfo (app_run evs (app_step (Click lat lon pos) s)))
        = position (clickedInfo (app_step (Click lat lon pos) s))"
    by (rule settles_keep_position[OF assms])
  then show ?thesis by (simp add: handleGlobeClick_call_def)
qed

theorem earlier_results_keep_position_witness:
  "list_all is_settle
     [WeatherSettled 0 (Resolved (1::nat)),
      GeoSettled 0 (Resolved \<lparr>address = Some \<lparr>country = Some ''France''\<rparr>\<rparr>)] \<and>
   position (clickedInfo (app_run
     [WeatherSettled 0 (Resolved (1::nat)),
      GeoSettled 0 (Resolved \<lparr>address = Some \<lparr>country = Some ''France''\<rparr>\<rparr>)]
     (app_step (Click 30 40 (Vector3 0 0 1))
        (app_step (Click 10 20 (Vector3 1 0 0)) App_init)))) = Some (Vector3 0 0 1)"
proof -
  have h: "list_all is_settle
     [WeatherSettled 0 (Resolved (1::nat)),
      GeoSettled 0 (Resolved \<lparr>address = Some \<lparr>country = Some ''France''\<rparr>\<rparr>)]"
    by simp
  show ?thesis
    using h
      earlier_results_keep_position
        [OF h, of 30 40 "Vector3 0 0 1" "app_step (Click 10 20 (Vector3 1 0 0)) App_init"]
    by simp
qed

section \<open>The place name and the merge of the two results\<close>




text \<open>
  C8.  The completion of the weather lookup writes the forecast only, the completion of
  the place-name lookup writes the country name only, and the two commute: from any
  state and for any pair of results, the forecast and \<open>clickedInfo\<close> are the same
  whichever of the two is applied first.
\<close>

theorem lookup_results_commute:
  "weather (fst (handleGlobeClick_geo g (handleGlobeClick_weather w s))) =
     weather (handleGlobeClick_weather w (fst (handleGlobeClick_geo g s))) \<and>
   clickedInfo (fst (handleGlobeClick_geo g (handleGlobeClick_weather w s))) =
     clickedInfo (handleGlobeClick_weather w (fst (handleGlobeClick_geo g s))) \<and>
   clickedInfo (handleGlobeClick_weather w s) = clickedInfo s \<and>
   weather (fst (handleGlobeClick_geo g s)) = weather s \<and>
   position (clickedInfo (fst (handleGlobeClick_geo g s))) = position (clickedInfo s)"
proof -
  have a: "weather (fst (handleGlobeClick_geo g (handleGlobeClick_weather w s))) =
     weather (handleGlobeClick_weather w (fst (handleGlobeClick_geo g s)))"
    by (cases w; cases g) (simp_all add: setCountryName_def split: option.splits)
  have b: "clickedInfo (fst (handleGlobeClick_geo g (handleGlobeClick_weather w s))) =
     clickedInfo (handleGlobeClick_weather w (fst (handleGlobeClick_geo g s)))"
    by (cases w; cases g) (simp_all add: setCountryName_def split: option.splits)
  show ?thesis
    using a b by (simp add: weather_keeps_clickedInfo geo_keeps_weather geo_keeps_position)
qed

end
